theory Spec2Isabelle
  imports Complex_Main
begin

text \<open>
  The component \<^verbatim>\<open>MultiDirectionTooltip\<close>: where it puts its overlay
  (\<^verbatim>\<open>calculatePosition\<close>), how it opens and closes it through a single timer
  (\<^verbatim>\<open>handleOpen\<close>, \<^verbatim>\<open>handleClose\<close>), what its event handlers do, and what the overlay
  element carries. Each handler is a function from the state of the component to its
  next state; the browser's timers and the focus are part of that state.
\<close>

section \<open>Data model (types.ts)\<close>

text \<open>
  The two enums of the component. The order of the constructors is the order of the
  TypeScript declarations.
\<close>

datatype PopupPlacement = TOP | LEFT | RIGHT | BOTTOM

datatype PopupType = HOVER | CLICK

text \<open>
  \<^verbatim>\<open>BasePopupMetadata\<close> and its extension \<^verbatim>\<open>HoverPopupMetadata\<close>, as one record: a click
  entry simply leaves the three hover fields unset. Optional numbers are \<open>option\<close>s.
  The optional flags \<^verbatim>\<open>disableFlip\<close> and \<^verbatim>\<open>enterable\<close> are only ever tested for
  truthiness, so an absent flag is \<open>False\<close>. A callback is an opaque function of the host
  application: the model keeps a label for it (or \<open>None\<close> when the entry defines none) and
  records every invocation in the state. JavaScript numbers are taken as reals: the
  component only adds, subtracts, halves and compares them.
\<close>

record PopupMetadata =
  offset :: "real option"
  onMouseEnter :: "string option"
  onMouseLeave :: "string option"
  onOpenCallback :: "string option"
  onCloseCallback :: "string option"
  disableFlip :: bool
  element :: string
  openDelay :: "real option"
  closeDelay :: "real option"
  enterable :: bool

text \<open>
  One cell of \<^verbatim>\<open>MultiDirectionPopupConfig\<close>: the entries of one placement, by type.
\<close>

record PopupTypes =
  click :: "PopupMetadata option"
  hover :: "PopupMetadata option"

text \<open>
  The configuration object. \<^verbatim>\<open>Object.entries(config)\<close> walks the keys in insertion order,
  so the object is an association list; \<^verbatim>\<open>config[placement]\<close> is \<open>map_of\<close>. An object has
  each key once: theorems that relate the iteration to the lookup assume
  \<open>distinct (map fst cfg)\<close>.
\<close>

type_synonym MultiDirectionPopupConfig = "(PopupPlacement \<times> PopupTypes) list"

text \<open>
  The props of the component after destructuring, where the defaults
  \<^verbatim>\<open>disableFlip = false\<close> and \<^verbatim>\<open>defaultOffset = 8\<close> have been applied. The three
  \<^verbatim>\<open>triggerCallbacks\<close> are labels like the callbacks of an entry.
\<close>

record Props =
  config :: MultiDirectionPopupConfig
  p_disableFlip :: bool
  defaultOffset :: real
  tc_onClick :: "string option"
  tc_onMouseEnter :: "string option"
  tc_onMouseLeave :: "string option"

section \<open>Geometry\<close>

text \<open>
  What \<^verbatim>\<open>getBoundingClientRect()\<close> returns: the six properties the component reads.
\<close>

record DOMRect =
  rect_top :: real
  rect_left :: real
  rect_width :: real
  rect_height :: real
  rect_bottom :: real
  rect_right :: real

record Position =
  pos_top :: real
  pos_left :: real

text \<open>
  The part of the page that \<^verbatim>\<open>calculatePosition\<close> reads: the trigger's rectangle
  (\<open>None\<close> when \<^verbatim>\<open>triggerRef.current\<close> is null), the overlay's rectangle (\<open>None\<close> when
  \<^verbatim>\<open>popupRef.current\<close> is null, that is before the overlay is mounted) and the size of the
  window. \<open>focusable\<close> lists the overlay's focusable descendants in document order, as
  \<^verbatim>\<open>querySelectorAll\<close> returns them.
\<close>

record Env =
  triggerRef :: "DOMRect option"
  popupRef :: "DOMRect option"
  innerWidth :: real
  innerHeight :: real
  focusable :: "nat list"

text \<open>
  The value of \<^verbatim>\<open>activePopup\<close> when it is not null.
\<close>

record ActivePopup =
  ap_placement :: PopupPlacement
  ap_type :: PopupType
  ap_position :: "Position option"

text \<open>
  The object \<^verbatim>\<open>calculatePosition\<close> returns: \<^verbatim>\<open>{}\<close> has both fields unset.
\<close>

record CalcResult =
  res_position :: "Position option"
  res_placement :: "PopupPlacement option"

text \<open>\<^verbatim>\<open>config[placement]?.[type]\<close>\<close>

definition lookupSpec ::
  "MultiDirectionPopupConfig \<Rightarrow> PopupPlacement \<Rightarrow> PopupType \<Rightarrow> PopupMetadata option" where
  "lookupSpec cfg pl ty =
     (case map_of cfg pl of
        None \<Rightarrow> None
      | Some types \<Rightarrow> (case ty of CLICK \<Rightarrow> click types | HOVER \<Rightarrow> hover types))"

text \<open>
  \<^verbatim>\<open>popupRect\<close>: the measured overlay when it is mounted, otherwise the default size
  \<^verbatim>\<open>{ width: 200, height: 40 }\<close>. Only width and height are read from it.
\<close>

definition popupRect :: "Env \<Rightarrow> real \<times> real" where
  "popupRect env =
     (case popupRef env of
        Some r \<Rightarrow> (rect_width r, rect_height r)
      | None \<Rightarrow> (200, 40))"

text \<open>
  The table \<^verbatim>\<open>positions\<close>, one entry per placement, from the trigger's rectangle, the
  overlay's width \<open>pw\<close> and height \<open>ph\<close>, and the offset.
\<close>

definition positions :: "DOMRect \<Rightarrow> real \<Rightarrow> real \<Rightarrow> real \<Rightarrow> PopupPlacement \<Rightarrow> Position" where
  "positions triggerRect pw ph off pl =
     (case pl of
        TOP \<Rightarrow> \<lparr>pos_top = rect_top triggerRect - ph - off,
                pos_left = rect_left triggerRect + (rect_width triggerRect - pw) / 2\<rparr>
      | BOTTOM \<Rightarrow> \<lparr>pos_top = rect_bottom triggerRect + off,
                   pos_left = rect_left triggerRect + (rect_width triggerRect - pw) / 2\<rparr>
      | LEFT \<Rightarrow> \<lparr>pos_top = rect_top triggerRect + (rect_height triggerRect - ph) / 2,
                 pos_left = rect_left triggerRect - pw - off\<rparr>
      | RIGHT \<Rightarrow> \<lparr>pos_top = rect_top triggerRect + (rect_height triggerRect - ph) / 2,
                  pos_left = rect_right triggerRect + off\<rparr>)"

text \<open>
  The boundary checks of \<^verbatim>\<open>calculatePosition\<close>, first match wins; the viewport's left
  and top edges are the constants 0.
\<close>

definition flipPlacement ::
  "Position \<Rightarrow> real \<Rightarrow> real \<Rightarrow> real \<Rightarrow> real \<Rightarrow> PopupPlacement \<Rightarrow> PopupPlacement" where
  "flipPlacement viewportPos pw ph viewportRight viewportBottom pl =
     (if pos_left viewportPos < 0 then RIGHT
      else if pos_left viewportPos + pw > viewportRight then LEFT
      else if pos_top viewportPos < 0 then BOTTOM
      else if pos_top viewportPos + ph > viewportBottom then TOP
      else pl)"

text \<open>
  The entry whose \<^verbatim>\<open>disableFlip\<close> is consulted:
  \<^verbatim>\<open>config[placement]?.[activePopup?.type ?? PopupType.HOVER]\<close>. Here \<open>ap\<close> is the
  \<^verbatim>\<open>activePopup\<close> that the closure of \<^verbatim>\<open>calculatePosition\<close> holds.
\<close>

definition tooltipConfig ::
  "Props \<Rightarrow> ActivePopup option \<Rightarrow> PopupPlacement \<Rightarrow> PopupMetadata option" where
  "tooltipConfig props ap pl =
     lookupSpec (config props) pl (case ap of None \<Rightarrow> HOVER | Some a \<Rightarrow> ap_type a)"

text \<open>
  The test \<^verbatim>\<open>tooltipConfig?.disableFlip || disableFlip\<close>.
\<close>

definition flipDisabled :: "Props \<Rightarrow> ActivePopup option \<Rightarrow> PopupPlacement \<Rightarrow> bool" where
  "flipDisabled props ap pl =
     ((case tooltipConfig props ap pl of None \<Rightarrow> False | Some c \<Rightarrow> disableFlip c)
      \<or> p_disableFlip props)"

text \<open>
  \<^verbatim>\<open>calculatePosition(placement)\<close>. The offset is \<^verbatim>\<open>defaultOffset\<close>.
\<close>

definition calculatePosition ::
  "Props \<Rightarrow> ActivePopup option \<Rightarrow> Env \<Rightarrow> PopupPlacement \<Rightarrow> CalcResult" where
  "calculatePosition props ap env pl =
     (case triggerRef env of
        None \<Rightarrow> \<lparr>res_position = None, res_placement = None\<rparr>
      | Some triggerRect \<Rightarrow>
          (let (pw, ph) = popupRect env;
               off = defaultOffset props
           in if flipDisabled props ap pl
              then \<lparr>res_position = Some (positions triggerRect pw ph off pl),
                    res_placement = Some pl\<rparr>
              else
                (let viewportPos = positions triggerRect pw ph off pl;
                     finalPlacement =
                       flipPlacement viewportPos pw ph (innerWidth env) (innerHeight env) pl
                 in \<lparr>res_position = Some (positions triggerRect pw ph off finalPlacement),
                     res_placement = Some finalPlacement\<rparr>)))"

section \<open>Timers and component state\<close>

text \<open>
  The two closures that the component hands to \<^verbatim>\<open>window.setTimeout\<close>, with the values
  they capture: the one armed by \<^verbatim>\<open>handleOpen\<close> holds \<^verbatim>\<open>finalPlacement\<close>, \<^verbatim>\<open>type\<close>,
  \<^verbatim>\<open>preCalculatedPosition.position\<close> and \<^verbatim>\<open>popupConfig\<close>; the one armed by
  \<^verbatim>\<open>handleClose\<close> holds \<^verbatim>\<open>popupConfig\<close>.
\<close>

datatype TimerCallback =
    OpenCb PopupPlacement PopupType "Position option" PopupMetadata
  | CloseCb PopupMetadata

record Timer =
  t_id :: nat
  t_delay :: real
  t_cb :: TimerCallback

text \<open>
  \<^verbatim>\<open>document.activeElement\<close>, as far as the component moves it: the trigger, the overlay
  container, a focusable descendant of the overlay, or anything else.
\<close>

datatype FocusTarget = FTrigger | FPopup | FChild nat | FElsewhere

text \<open>
  The state of one mounted component: the two \<^verbatim>\<open>useState\<close> cells, \<^verbatim>\<open>timeoutRef\<close>, and
  the browser's side as far as the component acts on it (\<open>pending\<close>: the timers armed and
  neither cleared nor run yet; \<open>nextTimerId\<close>: the identifier the next
  \<^verbatim>\<open>setTimeout\<close> returns; \<open>activeElement\<close>: the focus).

  \<open>cp_activePopup\<close> is the \<^verbatim>\<open>activePopup\<close> inside the closure of
  \<^verbatim>\<open>calculatePosition\<close>. That function is memoised with the dependency array
  \<^verbatim>\<open>[defaultOffset, disableFlip]\<close>, so its closure keeps the \<^verbatim>\<open>activePopup\<close> of the render
  that created it; no handler writes this field. Theorems hold for every value of it.

  \<open>overlayRender\<close> tells whether an overlay element is in the page, and from which
  render: it is the \<^verbatim>\<open>activePopup\<close> of the last render that produced the element. While
  \<^verbatim>\<open>isOpen && activePopup\<close> holds this is the current \<^verbatim>\<open>activePopup\<close>. After a close,
  \<^verbatim>\<open>AnimatePresence\<close> keeps the element of the last render in the page until its exit
  animation is over, and the handlers of that element are the closures of that render.

  \<open>invoked\<close> and \<open>fired\<close> are history: the labels of the host callbacks called so far,
  and the timers whose callback has run, both in order.
\<close>

record State =
  isOpen :: bool
  activePopup :: "ActivePopup option"
  cp_activePopup :: "ActivePopup option"
  overlayRender :: "ActivePopup option"
  timeoutRef :: "nat option"
  pending :: "Timer list"
  nextTimerId :: nat
  activeElement :: FocusTarget
  invoked :: "string list"
  fired :: "Timer list"

definition initialState :: State where
  "initialState =
     \<lparr>isOpen = False, activePopup = None, cp_activePopup = None, overlayRender = None,
      timeoutRef = None, pending = [], nextTimerId = 1, activeElement = FElsewhere,
      invoked = [], fired = []\<rparr>"

text \<open>\<^verbatim>\<open>cb?.()\<close> for a host callback.\<close>

definition invoke :: "string option \<Rightarrow> State \<Rightarrow> State" where
  "invoke cb s = (case cb of None \<Rightarrow> s | Some l \<Rightarrow> s\<lparr>invoked := invoked s @ [l]\<rparr>)"

text \<open>\<^verbatim>\<open>window.clearTimeout(id)\<close>: a timer that is not pending is left alone.\<close>

definition windowClearTimeout :: "nat \<Rightarrow> State \<Rightarrow> State" where
  "windowClearTimeout i s = s\<lparr>pending := filter (\<lambda>t. t_id t \<noteq> i) (pending s)\<rparr>"

text \<open>
  \<^verbatim>\<open>if (timeoutRef.current !== null) { window.clearTimeout(timeoutRef.current); }\<close>
\<close>

definition clearTimeoutRef :: "State \<Rightarrow> State" where
  "clearTimeoutRef s = (case timeoutRef s of None \<Rightarrow> s | Some i \<Rightarrow> windowClearTimeout i s)"

text \<open>\<^verbatim>\<open>window.setTimeout(cb, delay)\<close>: arms a timer and returns its fresh identifier.\<close>

definition windowSetTimeout :: "TimerCallback \<Rightarrow> real \<Rightarrow> State \<Rightarrow> nat \<times> State" where
  "windowSetTimeout cb d s =
     (nextTimerId s,
      s\<lparr>pending := pending s @ [\<lparr>t_id = nextTimerId s, t_delay = d, t_cb = cb\<rparr>],
        nextTimerId := Suc (nextTimerId s)\<rparr>)"

text \<open>\<^verbatim>\<open>delay || 0\<close> for an optional number.\<close>

definition orZero :: "real option \<Rightarrow> real" where
  "orZero d = (case d of None \<Rightarrow> 0 | Some v \<Rightarrow> v)"

text \<open>\<^verbatim>\<open>handleOpen(placement, type)\<close>\<close>

definition handleOpen :: "Props \<Rightarrow> Env \<Rightarrow> PopupPlacement \<Rightarrow> PopupType \<Rightarrow> State \<Rightarrow> State" where
  "handleOpen props env pl ty s =
     (case lookupSpec (config props) pl ty of
        None \<Rightarrow> s
      | Some popupConfig \<Rightarrow>
          (let delay = (if ty = HOVER then orZero (openDelay popupConfig) else 0);
               s1 = clearTimeoutRef s;
               preCalculatedPosition = calculatePosition props (cp_activePopup s) env pl;
               finalPlacement =
                 (case res_placement preCalculatedPosition of None \<Rightarrow> pl | Some p \<Rightarrow> p);
               (i, s2) =
                 windowSetTimeout
                   (OpenCb finalPlacement ty (res_position preCalculatedPosition) popupConfig)
                   delay s1
           in s2\<lparr>timeoutRef := Some i\<rparr>))"

text \<open>
  \<^verbatim>\<open>handleClose()\<close>. The function is memoised with \<^verbatim>\<open>[config, activePopup]\<close>, so each
  render has its own closure: \<open>apc\<close> is the \<^verbatim>\<open>activePopup\<close> of the render whose closure
  is called. The trigger and the document listeners hold the closure of the current
  render; an overlay element holds the closure of the render that produced it.
\<close>

definition handleClose :: "Props \<Rightarrow> ActivePopup option \<Rightarrow> State \<Rightarrow> State" where
  "handleClose props apc s =
     (case apc of
        None \<Rightarrow> s
      | Some ap \<Rightarrow>
          (case lookupSpec (config props) (ap_placement ap) (ap_type ap) of
             None \<Rightarrow> s
           | Some popupConfig \<Rightarrow>
               (let delay = (if ap_type ap = HOVER then orZero (closeDelay popupConfig) else 0);
                    s1 = clearTimeoutRef s;
                    (i, s2) = windowSetTimeout (CloseCb popupConfig) delay s1
                in s2\<lparr>timeoutRef := Some i\<rparr>)))"

text \<open>
  The body of a timer callback. The two state setters of one callback are applied
  together. After the open callback the component renders the overlay with the new
  \<^verbatim>\<open>activePopup\<close>; after the close callback it renders none, and the element of the
  last render stays in the page for its exit animation.
\<close>

fun runCallback :: "TimerCallback \<Rightarrow> State \<Rightarrow> State" where
  "runCallback (OpenCb finalPlacement ty pos popupConfig) s =
     invoke (onOpenCallback popupConfig)
       (s\<lparr>isOpen := True,
          activePopup :=
            Some \<lparr>ap_placement = finalPlacement, ap_type = ty, ap_position = pos\<rparr>,
          overlayRender :=
            Some \<lparr>ap_placement = finalPlacement, ap_type = ty, ap_position = pos\<rparr>\<rparr>)"
| "runCallback (CloseCb popupConfig) s =
     (invoke (onCloseCallback popupConfig) (s\<lparr>isOpen := False\<rparr>))\<lparr>activePopup := None\<rparr>"

text \<open>
  The browser runs the pending timer \<open>i\<close>: it leaves the pending set and its callback
  runs. Nothing happens when no such timer is pending.
\<close>

definition fireTimer :: "nat \<Rightarrow> State \<Rightarrow> State" where
  "fireTimer i s =
     (case find (\<lambda>t. t_id t = i) (pending s) of
        None \<Rightarrow> s
      | Some t \<Rightarrow>
          runCallback (t_cb t)
            (s\<lparr>pending := filter (\<lambda>t. t_id t \<noteq> i) (pending s), fired := fired s @ [t]\<rparr>))"

section \<open>Event handlers\<close>

text \<open>
  \<^verbatim>\<open>triggerProps.onClick\<close>: the loop over \<^verbatim>\<open>Object.entries(config)\<close>, whose body is
  \<open>openEntry\<close>.
\<close>

fun openEntry :: "Props \<Rightarrow> Env \<Rightarrow> State \<Rightarrow> PopupPlacement \<times> PopupTypes \<Rightarrow> State" where
  "openEntry props env st (pl, types) =
     (if click types \<noteq> None then handleOpen props env pl CLICK st else st)"

definition openClickEntries :: "Props \<Rightarrow> Env \<Rightarrow> State \<Rightarrow> State" where
  "openClickEntries props env s = foldl (openEntry props env) s (config props)"

definition onClick :: "Props \<Rightarrow> Env \<Rightarrow> State \<Rightarrow> State" where
  "onClick props env s = openClickEntries props env (invoke (tc_onClick props) s)"

datatype Key = Escape | Tab | Enter | Space | OtherKey

text \<open>\<^verbatim>\<open>triggerProps.onKeyDown\<close>\<close>

definition onKeyDown :: "Props \<Rightarrow> Env \<Rightarrow> Key \<Rightarrow> State \<Rightarrow> State" where
  "onKeyDown props env k s =
     (if k = Enter \<or> k = Space
      then openClickEntries props env (invoke (tc_onClick props) s)
      else s)"

text \<open>\<^verbatim>\<open>triggerProps.onMouseEnter\<close>\<close>

definition onMouseEnterTrigger :: "Props \<Rightarrow> Env \<Rightarrow> State \<Rightarrow> State" where
  "onMouseEnterTrigger props env s =
     (let s1 = invoke (tc_onMouseEnter props) s
      in case find (\<lambda>(pl, types). hover types \<noteq> None) (config props) of
           None \<Rightarrow> s1
         | Some hoverEntry \<Rightarrow> handleOpen props env (fst hoverEntry) HOVER s1)"

text \<open>\<^verbatim>\<open>triggerProps.onMouseLeave\<close>\<close>

definition onMouseLeaveTrigger :: "Props \<Rightarrow> State \<Rightarrow> State" where
  "onMouseLeaveTrigger props s =
     (let s1 = invoke (tc_onMouseLeave props) s
      in case activePopup s of
           None \<Rightarrow> s1
         | Some ap \<Rightarrow>
             if ap_type ap = HOVER
             then (case lookupSpec (config props) (ap_placement ap) HOVER of
                     None \<Rightarrow> handleClose props (activePopup s) s1
                   | Some popupConfig \<Rightarrow>
                       if \<not> enterable popupConfig
                       then handleClose props (activePopup s) s1
                       else s1)
             else s1)"

text \<open>
  The component renders the overlay exactly when \<^verbatim>\<open>isOpen && activePopup\<close> holds.
\<close>

definition rendered :: "State \<Rightarrow> ActivePopup option" where
  "rendered s = (if isOpen s then activePopup s else None)"

text \<open>
  The overlay's \<^verbatim>\<open>onMouseEnter\<close>. It can run whenever an overlay element is in the
  page, also during the exit animation; \<^verbatim>\<open>activePopup\<close> in it is the one of the render
  that produced the element, \<^verbatim>\<open>timeoutRef\<close> is the live ref.
\<close>

definition onMouseEnterPopup :: "Props \<Rightarrow> State \<Rightarrow> State" where
  "onMouseEnterPopup props s =
     (case overlayRender s of
        None \<Rightarrow> s
      | Some ap \<Rightarrow>
          (case lookupSpec (config props) (ap_placement ap) (ap_type ap) of
             None \<Rightarrow> s
           | Some popupConfig \<Rightarrow>
               if ap_type ap = HOVER \<and> enterable popupConfig
               then invoke (onMouseEnter popupConfig) (clearTimeoutRef s)
               else s))"

text \<open>
  The overlay's \<^verbatim>\<open>onMouseLeave\<close>, likewise; the \<^verbatim>\<open>handleClose\<close> it calls is the closure
  of the same render.
\<close>

definition onMouseLeavePopup :: "Props \<Rightarrow> State \<Rightarrow> State" where
  "onMouseLeavePopup props s =
     (case overlayRender s of
        None \<Rightarrow> s
      | Some ap \<Rightarrow>
          (case lookupSpec (config props) (ap_placement ap) (ap_type ap) of
             None \<Rightarrow> s
           | Some popupConfig \<Rightarrow>
               if ap_type ap = HOVER \<and> enterable popupConfig
               then invoke (onMouseLeave popupConfig) (handleClose props (Some ap) s)
               else s))"

text \<open>
  \<^verbatim>\<open>closePopup\<close>, as the overlay's content receives it: the \<^verbatim>\<open>handleClose\<close> of the render
  that produced the overlay element, callable as long as the element is in the page.
\<close>

definition closePopup :: "Props \<Rightarrow> State \<Rightarrow> State" where
  "closePopup props s =
     (case overlayRender s of None \<Rightarrow> s | Some ap \<Rightarrow> handleClose props (Some ap) s)"

text \<open>
  The exit animation of an overlay that is no longer rendered is over: its element
  leaves the page.
\<close>

definition exitComplete :: "State \<Rightarrow> State" where
  "exitComplete s = (case rendered s of None \<Rightarrow> s\<lparr>overlayRender := None\<rparr> | Some ap \<Rightarrow> s)"

text \<open>
  Where a \<^verbatim>\<open>mousedown\<close> lands, as \<^verbatim>\<open>handleClickOutside\<close> tells it apart with
  \<^verbatim>\<open>contains\<close>.
\<close>

datatype MouseTarget = InTrigger | InPopup | Outside

definition handleClickOutside :: "Props \<Rightarrow> Env \<Rightarrow> MouseTarget \<Rightarrow> State \<Rightarrow> State" where
  "handleClickOutside props env tgt s =
     (case activePopup s of
        None \<Rightarrow> s
      | Some ap \<Rightarrow>
          if ap_type ap = CLICK \<and> popupRef env \<noteq> None \<and> tgt \<noteq> InPopup
             \<and> triggerRef env \<noteq> None \<and> tgt \<noteq> InTrigger
          then handleClose props (activePopup s) s
          else s)"

text \<open>
  The document's \<^verbatim>\<open>keydown\<close> listener. In the \<^verbatim>\<open>Tab\<close> case an empty list of focusable
  elements makes both \<^verbatim>\<open>firstFocusable\<close> and \<^verbatim>\<open>lastFocusable\<close> undefined, and neither
  comparison with \<^verbatim>\<open>document.activeElement\<close> holds.
\<close>

definition handleKeyDown :: "Props \<Rightarrow> Env \<Rightarrow> Key \<Rightarrow> bool \<Rightarrow> State \<Rightarrow> State" where
  "handleKeyDown props env k shiftKey s =
     (if \<not> isOpen s then s
      else case k of
          Escape \<Rightarrow>
            (let s1 = handleClose props (activePopup s) s
             in case triggerRef env of None \<Rightarrow> s1 | Some r \<Rightarrow> s1\<lparr>activeElement := FTrigger\<rparr>)
        | Tab \<Rightarrow>
            (case activePopup s of
               None \<Rightarrow> s
             | Some ap \<Rightarrow>
                 if ap_type ap = CLICK \<and> popupRef env \<noteq> None \<and> focusable env \<noteq> []
                 then
                   (let firstFocusable = hd (focusable env);
                        lastFocusable = last (focusable env)
                    in if shiftKey \<and> activeElement s = FChild firstFocusable
                       then s\<lparr>activeElement := FChild lastFocusable\<rparr>
                       else if \<not> shiftKey \<and> activeElement s = FChild lastFocusable
                       then s\<lparr>activeElement := FChild firstFocusable\<rparr>
                       else s)
                 else s)
        | Enter \<Rightarrow> s
        | Space \<Rightarrow> s
        | OtherKey \<Rightarrow> s)"

text \<open>
  The body of the keyboard effect, run after a render:
  \<^verbatim>\<open>if (isOpen && activePopup?.type === PopupType.CLICK && popupRef.current) popupRef.current.focus()\<close>.
\<close>

definition focusEffect :: "Env \<Rightarrow> State \<Rightarrow> State" where
  "focusEffect env s =
     (case rendered s of
        None \<Rightarrow> s
      | Some ap \<Rightarrow>
          if ap_type ap = CLICK \<and> popupRef env \<noteq> None
          then s\<lparr>activeElement := FPopup\<rparr>
          else s)"

text \<open>
  Everything that can happen to a mounted component, with the page as it is at that
  moment. \<open>EffectCleanup\<close> is the cleanup of the resize effect, which clears the timer in
  \<^verbatim>\<open>timeoutRef\<close> whenever the effect is re-run; \<open>ExitComplete\<close> is the end of an exit
  animation. (The resize and scroll listener itself touches neither the timers nor
  \<^verbatim>\<open>isOpen\<close>, and is not part of this development.)
\<close>

datatype Event =
    TriggerClick
  | TriggerKeyDown Key
  | TriggerMouseEnter
  | TriggerMouseLeave
  | PopupMouseEnter
  | PopupMouseLeave
  | ContentClosePopup
  | DocMouseDown MouseTarget
  | DocKeyDown Key bool
  | TimerFires nat
  | EffectCleanup
  | FocusEffect
  | ExitComplete

fun step :: "Props \<Rightarrow> Env \<times> Event \<Rightarrow> State \<Rightarrow> State" where
  "step props (env, TriggerClick) s = onClick props env s"
| "step props (env, TriggerKeyDown k) s = onKeyDown props env k s"
| "step props (env, TriggerMouseEnter) s = onMouseEnterTrigger props env s"
| "step props (env, TriggerMouseLeave) s = onMouseLeaveTrigger props s"
| "step props (env, PopupMouseEnter) s = onMouseEnterPopup props s"
| "step props (env, PopupMouseLeave) s = onMouseLeavePopup props s"
| "step props (env, ContentClosePopup) s = closePopup props s"
| "step props (env, DocMouseDown tgt) s = handleClickOutside props env tgt s"
| "step props (env, DocKeyDown k shiftKey) s = handleKeyDown props env k shiftKey s"
| "step props (env, TimerFires i) s = fireTimer i s"
| "step props (env, EffectCleanup) s = clearTimeoutRef s"
| "step props (env, FocusEffect) s = focusEffect env s"
| "step props (env, ExitComplete) s = exitComplete s"

text \<open>A run: the events of a list, one after the other.\<close>

fun run :: "Props \<Rightarrow> (Env \<times> Event) list \<Rightarrow> State \<Rightarrow> State" where
  "run props [] s = s"
| "run props (e # es) s = run props es (step props e s)"

section \<open>Rendering of the overlay\<close>

text \<open>The string values of the enum \<^verbatim>\<open>PopupPlacement\<close>.\<close>

fun placementValue :: "PopupPlacement \<Rightarrow> string" where
  "placementValue TOP = ''top''"
| "placementValue LEFT = ''left''"
| "placementValue RIGHT = ''right''"
| "placementValue BOTTOM = ''bottom''"

text \<open>
  The attributes of the \<^verbatim>\<open>motion.div\<close>, its inline position and its content.
\<close>

record Overlay =
  ov_role :: string
  ov_aria_live :: string
  ov_aria_modal :: bool
  ov_aria_hidden :: bool
  ov_tabIndex :: int
  ov_data_placement :: string
  ov_style :: "Position option"
  ov_content :: "string option"

definition renderOverlay :: "Props \<Rightarrow> Env \<Rightarrow> State \<Rightarrow> Overlay option" where
  "renderOverlay props env s =
     (case rendered s of
        None \<Rightarrow> None
      | Some ap \<Rightarrow>
          Some \<lparr>ov_role = ''tooltip'',
                ov_aria_live = (if ap_type ap = HOVER then ''polite'' else ''assertive''),
                ov_aria_modal = (ap_type ap = CLICK),
                ov_aria_hidden = (\<not> isOpen s),
                ov_tabIndex = (if ap_type ap = CLICK then 0 else - 1),
                ov_data_placement = placementValue (ap_placement ap),
                ov_style =
                  (case ap_position ap of
                     Some p \<Rightarrow> Some p
                   | None \<Rightarrow>
                       res_position
                         (calculatePosition props (cp_activePopup s) env (ap_placement ap))),
                ov_content =
                  map_option element
                    (lookupSpec (config props) (ap_placement ap) (ap_type ap))\<rparr>)"

section \<open>Fixtures of the test suite\<close>

text \<open>
  The concrete inputs of the examples below are those of the component's tests: an entry
  with only its content set, the props with their defaults, a trigger of 100 by 30
  pixels as the mocked \<^verbatim>\<open>getBoundingClientRect\<close> returns it, and a window of 1024 by 768
  pixels in which the overlay is not mounted yet.
\<close>

definition entry :: "string \<Rightarrow> PopupMetadata" where
  "entry el =
     \<lparr>offset = None, onMouseEnter = None, onMouseLeave = None, onOpenCallback = None,
      onCloseCallback = None, disableFlip = False, element = el, openDelay = None,
      closeDelay = None, enterable = False\<rparr>"

definition onlyHover :: "PopupMetadata \<Rightarrow> PopupTypes" where
  "onlyHover m = \<lparr>click = None, hover = Some m\<rparr>"

definition onlyClick :: "PopupMetadata \<Rightarrow> PopupTypes" where
  "onlyClick m = \<lparr>click = Some m, hover = None\<rparr>"

definition defaultProps :: "MultiDirectionPopupConfig \<Rightarrow> Props" where
  "defaultProps cfg =
     \<lparr>config = cfg, p_disableFlip = False, defaultOffset = 8, tc_onClick = None,
      tc_onMouseEnter = None, tc_onMouseLeave = None\<rparr>"

definition triggerAt :: "real \<Rightarrow> real \<Rightarrow> DOMRect" where
  "triggerAt t l =
     \<lparr>rect_top = t, rect_left = l, rect_width = 100, rect_height = 30,
      rect_bottom = t + 30, rect_right = l + 100\<rparr>"

definition page :: "DOMRect \<Rightarrow> Env" where
  "page tr =
     \<lparr>triggerRef = Some tr, popupRef = None, innerWidth = 1024, innerHeight = 768,
      focusable = []\<rparr>"

text \<open>
  Configurations of the examples: a hover entry with the delays of the delay test, a
  hover entry with an offset of its own, a single click entry, a click entry that
  disables flipping, an enterable hover entry, and two click entries.
\<close>

definition delayedHover :: Props where
  "delayedHover =
     defaultProps
       [(TOP, onlyHover ((entry ''Delayed tooltip'')\<lparr>openDelay := Some 100, closeDelay := Some 0\<rparr>))]"

definition offsetHover :: Props where
  "offsetHover = defaultProps [(TOP, onlyHover ((entry ''Custom offset tooltip'')\<lparr>offset := Some 20\<rparr>))]"

definition oneClick :: Props where
  "oneClick = defaultProps [(TOP, onlyClick (entry ''Escape tooltip content''))]"

definition noFlipClick :: Props where
  "noFlipClick = defaultProps [(TOP, onlyClick ((entry ''No flip tooltip'')\<lparr>disableFlip := True\<rparr>))]"

definition enterableHover :: Props where
  "enterableHover =
     defaultProps [(RIGHT, onlyHover ((entry ''Hover over me!'')\<lparr>enterable := True\<rparr>))]"

definition twoClicks :: Props where
  "twoClicks = defaultProps [(TOP, onlyClick (entry ''A'')), (BOTTOM, onlyClick (entry ''B''))]"

text \<open>
  The invariant of the timers: the pending timers are at most the one whose identifier
  \<^verbatim>\<open>timeoutRef\<close> holds, and identifiers handed out so far are below \<open>nextTimerId\<close>.
\<close>

definition timerInv :: "State \<Rightarrow> bool" where
  "timerInv s =
     ((case pending s of
         [] \<Rightarrow> True
       | [t] \<Rightarrow> timeoutRef s = Some (t_id t)
       | t # u # ts \<Rightarrow> False)
      \<and> (case timeoutRef s of None \<Rightarrow> True | Some i \<Rightarrow> i < nextTimerId s))"

text \<open>
  \<open>later s s'\<close>: \<open>s'\<close> comes after \<open>s\<close> as far as timers go. No identifier is handed
  out twice, every timer that has run since \<open>s\<close> was pending in \<open>s\<close> or armed after it,
  and so is every timer pending in \<open>s'\<close>.
\<close>

definition later :: "State \<Rightarrow> State \<Rightarrow> bool" where
  "later s s' =
     (nextTimerId s \<le> nextTimerId s'
      \<and> (\<exists>xs. fired s' = fired s @ xs
            \<and> (\<forall>t \<in> set xs. t \<in> set (pending s) \<or> nextTimerId s \<le> t_id t))
      \<and> (\<forall>t \<in> set (pending s'). t \<in> set (pending s) \<or> nextTimerId s \<le> t_id t))"

section \<open>The position computation\<close>

text \<open>
  C1. With the trigger mounted and flipping not disabled, \<^verbatim>\<open>calculatePosition\<close> tests
  the base position of the requested placement against the window, in the order left
  edge, right edge, top edge, bottom edge, takes the placement of the first test that
  holds (right, left, bottom, top) and otherwise keeps the requested one; the position
  it returns is the table entry of the placement so chosen. There is one round of tests
  and no clamping.
\<close>

theorem calculatePosition_flip_rule:
  assumes "triggerRef env = Some tr" and "\<not> flipDisabled props ap pl"
  shows "calculatePosition props ap env pl =
     (let (pw, ph) = popupRect env;
          base = positions tr pw ph (defaultOffset props) pl;
          final =
            (if pos_left base < 0 then RIGHT
             else if pos_left base + pw > innerWidth env then LEFT
             else if pos_top base < 0 then BOTTOM
             else if pos_top base + ph > innerHeight env then TOP
             else pl)
      in \<lparr>res_position = Some (positions tr pw ph (defaultOffset props) final),
          res_placement = Some final\<rparr>)"
  using assms
  by (simp add: calculatePosition_def flipPlacement_def Let_def split: prod.splits)

theorem calculatePosition_flip_rule_witness:
  "triggerRef (page (triggerAt 10 400)) = Some (triggerAt 10 400)
   \<and> \<not> flipDisabled (defaultProps [(TOP, onlyHover (entry ''Flipped tooltip''))]) None TOP
   \<and> calculatePosition (defaultProps [(TOP, onlyHover (entry ''Flipped tooltip''))]) None
        (page (triggerAt 10 400)) TOP
      = \<lparr>res_position = Some \<lparr>pos_top = 48, pos_left = 350\<rparr>, res_placement = Some BOTTOM\<rparr>"
  using calculatePosition_flip_rule
    [of "page (triggerAt 10 400)" "triggerAt 10 400"
        "defaultProps [(TOP, onlyHover (entry ''Flipped tooltip''))]" None TOP]
  by (simp add: page_def triggerAt_def defaultProps_def onlyHover_def entry_def
      flipDisabled_def tooltipConfig_def lookupSpec_def popupRect_def positions_def)

text \<open>
  C2. The table of base positions: above the trigger by the overlay's height and the
  offset, below it by the offset, left of it by the overlay's width and the offset,
  right of it by the offset; on the other axis the overlay's middle is the trigger's
  middle.
\<close>

theorem positions_formula:
  "pos_top (positions tr pw ph off TOP) = rect_top tr - ph - off
   \<and> pos_left (positions tr pw ph off TOP) = rect_left tr + (rect_width tr - pw) / 2
   \<and> pos_left (positions tr pw ph off TOP) + pw / 2 = rect_left tr + rect_width tr / 2
   \<and> pos_top (positions tr pw ph off BOTTOM) = rect_bottom tr + off
   \<and> pos_left (positions tr pw ph off BOTTOM) = rect_left tr + (rect_width tr - pw) / 2
   \<and> pos_left (positions tr pw ph off BOTTOM) + pw / 2 = rect_left tr + rect_width tr / 2
   \<and> pos_left (positions tr pw ph off LEFT) = rect_left tr - pw - off
   \<and> pos_top (positions tr pw ph off LEFT) = rect_top tr + (rect_height tr - ph) / 2
   \<and> pos_top (positions tr pw ph off LEFT) + ph / 2 = rect_top tr + rect_height tr / 2
   \<and> pos_left (positions tr pw ph off RIGHT) = rect_right tr + off
   \<and> pos_top (positions tr pw ph off RIGHT) = rect_top tr + (rect_height tr - ph) / 2
   \<and> pos_top (positions tr pw ph off RIGHT) + ph / 2 = rect_top tr + rect_height tr / 2"
  by (simp add: positions_def field_simps)

text \<open>
  When the test \<^verbatim>\<open>tooltipConfig?.disableFlip || disableFlip\<close> holds, the requested
  placement and its base position are returned as they are.
\<close>

lemma calculatePosition_flipDisabled:
  assumes "triggerRef env = Some tr" and "flipDisabled props ap pl"
  shows "calculatePosition props ap env pl =
     \<lparr>res_position =
        Some (positions tr (fst (popupRect env)) (snd (popupRect env)) (defaultOffset props) pl),
      res_placement = Some pl\<rparr>"
  using assms by (simp add: calculatePosition_def Let_def split: prod.splits)

section \<open>Opening without an entry\<close>

text \<open>
  C7. \<^verbatim>\<open>handleOpen\<close> for a placement and type that the configuration does not define
  returns at once: the whole state is the one before, so the visibility is unchanged, no
  timer is armed or cleared and no callback is recorded; the call has a result for every
  input.
\<close>

theorem handleOpen_missing_spec:
  assumes "lookupSpec (config props) pl ty = None"
  shows "handleOpen props env pl ty s = s"
  using assms by (simp add: handleOpen_def)

theorem handleOpen_missing_spec_witness:
  "lookupSpec (config (defaultProps [(TOP, onlyHover (entry ''X''))])) BOTTOM CLICK = None
   \<and> handleOpen (defaultProps [(TOP, onlyHover (entry ''X''))]) (page (triggerAt 300 400))
        BOTTOM CLICK initialState = initialState"
  using handleOpen_missing_spec
    [of "defaultProps [(TOP, onlyHover (entry ''X''))]" BOTTOM CLICK
        "page (triggerAt 300 400)" initialState]
  by (simp add: defaultProps_def lookupSpec_def onlyHover_def)

section \<open>The timer invariant\<close>

lemma invoke_fields [simp]:
  "isOpen (invoke cb s) = isOpen s"
  "activePopup (invoke cb s) = activePopup s"
  "cp_activePopup (invoke cb s) = cp_activePopup s"
  "overlayRender (invoke cb s) = overlayRender s"
  "timeoutRef (invoke cb s) = timeoutRef s"
  "pending (invoke cb s) = pending s"
  "nextTimerId (invoke cb s) = nextTimerId s"
  "activeElement (invoke cb s) = activeElement s"
  "fired (invoke cb s) = fired s"
  by (simp_all add: invoke_def split: option.splits)

lemma timerInv_initialState: "timerInv initialState"
  by (simp add: timerInv_def initialState_def)

lemma timerInv_invoke [simp]: "timerInv (invoke cb s) = timerInv s"
  by (simp add: timerInv_def split: list.splits option.splits)

lemma timerInv_pending_cases:
  assumes "timerInv s"
  shows "pending s = [] \<or> (\<exists>t. pending s = [t] \<and> timeoutRef s = Some (t_id t))"
  using assms by (auto simp: timerInv_def split: list.splits)

lemma timerInv_length: "timerInv s \<Longrightarrow> length (pending s) \<le> 1"
  using timerInv_pending_cases [of s] by auto

lemma clearTimeoutRef_fields [simp]:
  "isOpen (clearTimeoutRef s) = isOpen s"
  "activePopup (clearTimeoutRef s) = activePopup s"
  "cp_activePopup (clearTimeoutRef s) = cp_activePopup s"
  "overlayRender (clearTimeoutRef s) = overlayRender s"
  "timeoutRef (clearTimeoutRef s) = timeoutRef s"
  "nextTimerId (clearTimeoutRef s) = nextTimerId s"
  "activeElement (clearTimeoutRef s) = activeElement s"
  "fired (clearTimeoutRef s) = fired s"
  "invoked (clearTimeoutRef s) = invoked s"
  by (simp_all add: clearTimeoutRef_def windowClearTimeout_def split: option.splits)

lemma clearTimeoutRef_pending:
  assumes "timerInv s"
  shows "pending (clearTimeoutRef s) = []"
  using timerInv_pending_cases [OF assms]
  by (auto simp: clearTimeoutRef_def windowClearTimeout_def split: option.splits)

lemma clearTimeoutRef_eq:
  assumes "timerInv s"
  shows "clearTimeoutRef s = s\<lparr>pending := []\<rparr>"
  using timerInv_pending_cases [OF assms]
  by (auto simp: clearTimeoutRef_def windowClearTimeout_def split: option.splits)

lemma timerInv_clearTimeoutRef: "timerInv s \<Longrightarrow> timerInv (clearTimeoutRef s)"
  by (simp add: clearTimeoutRef_eq) (simp add: timerInv_def split: option.splits)

lemma handleOpen_arms:
  assumes "timerInv s" and "lookupSpec (config props) pl ty = Some c"
  shows "handleOpen props env pl ty s =
     s\<lparr>pending :=
         [\<lparr>t_id = nextTimerId s,
           t_delay = (if ty = HOVER then orZero (openDelay c) else 0),
           t_cb = OpenCb
             (case res_placement (calculatePosition props (cp_activePopup s) env pl) of
                None \<Rightarrow> pl | Some p \<Rightarrow> p)
             ty (res_position (calculatePosition props (cp_activePopup s) env pl)) c\<rparr>],
       nextTimerId := Suc (nextTimerId s),
       timeoutRef := Some (nextTimerId s)\<rparr>"
  using assms
  by (simp add: handleOpen_def Let_def windowSetTimeout_def clearTimeoutRef_eq)

lemma handleClose_arms:
  assumes "timerInv s"
    and "lookupSpec (config props) (ap_placement ap) (ap_type ap) = Some c"
  shows "handleClose props (Some ap) s =
     s\<lparr>pending :=
         [\<lparr>t_id = nextTimerId s,
           t_delay = (if ap_type ap = HOVER then orZero (closeDelay c) else 0),
           t_cb = CloseCb c\<rparr>],
       nextTimerId := Suc (nextTimerId s),
       timeoutRef := Some (nextTimerId s)\<rparr>"
  using assms
  by (simp add: handleClose_def Let_def windowSetTimeout_def clearTimeoutRef_eq)

lemma timerInv_handleOpen: "timerInv s \<Longrightarrow> timerInv (handleOpen props env pl ty s)"
proof (cases "lookupSpec (config props) pl ty")
  case None
  assume "timerInv s"
  with None show ?thesis by (simp add: handleOpen_def)
next
  case (Some c)
  assume "timerInv s"
  then show ?thesis
    by (simp add: handleOpen_arms [OF _ Some]) (simp add: timerInv_def split: list.splits option.splits)
qed

lemma timerInv_handleClose: "timerInv s \<Longrightarrow> timerInv (handleClose props apc s)"
proof -
  assume inv: "timerInv s"
  show ?thesis
  proof (cases apc)
    case None
    with inv show ?thesis by (simp add: handleClose_def)
  next
    case (Some ap)
    show ?thesis
    proof (cases "lookupSpec (config props) (ap_placement ap) (ap_type ap)")
      case None
      with \<open>apc = Some ap\<close> inv show ?thesis by (simp add: handleClose_def)
    next
      case (Some c)
      from inv show ?thesis unfolding \<open>apc = Some ap\<close>
        by (simp add: handleClose_arms [OF inv Some])
           (simp add: timerInv_def split: list.splits option.splits)
    qed
  qed
qed

lemma runCallback_fields [simp]:
  "timeoutRef (runCallback cb s) = timeoutRef s"
  "pending (runCallback cb s) = pending s"
  "nextTimerId (runCallback cb s) = nextTimerId s"
  "fired (runCallback cb s) = fired s"
  "cp_activePopup (runCallback cb s) = cp_activePopup s"
  "activeElement (runCallback cb s) = activeElement s"
  by (cases cb; simp)+

lemma timerInv_fireTimer: "timerInv s \<Longrightarrow> timerInv (fireTimer i s)"
  using timerInv_pending_cases [of s]
  by (auto simp: fireTimer_def timerInv_def split: option.splits list.splits)

lemma timerInv_openClickEntries_aux:
  "timerInv s \<Longrightarrow> timerInv (foldl (openEntry props env) s es)"
  by (induction es arbitrary: s) (auto simp: timerInv_handleOpen)

lemma timerInv_openClickEntries: "timerInv s \<Longrightarrow> timerInv (openClickEntries props env s)"
  unfolding openClickEntries_def by (rule timerInv_openClickEntries_aux)

lemma timerInv_step: "timerInv s \<Longrightarrow> timerInv (step props e s)"
proof -
  assume inv: "timerInv s"
  obtain env ev where e: "e = (env, ev)" by (cases e)
  show ?thesis
  proof (cases ev)
    case TriggerClick
    with e inv show ?thesis by (simp add: onClick_def timerInv_openClickEntries)
  next
    case (TriggerKeyDown k)
    with e inv show ?thesis by (simp add: onKeyDown_def timerInv_openClickEntries)
  next
    case TriggerMouseEnter
    with e inv show ?thesis
      by (simp add: onMouseEnterTrigger_def Let_def timerInv_handleOpen split: option.splits)
  next
    case TriggerMouseLeave
    with e inv show ?thesis
      by (simp add: onMouseLeaveTrigger_def Let_def timerInv_handleClose split: option.splits)
  next
    case PopupMouseEnter
    with e inv show ?thesis
      by (simp add: onMouseEnterPopup_def timerInv_clearTimeoutRef split: option.splits)
  next
    case PopupMouseLeave
    with e inv show ?thesis
      by (simp add: onMouseLeavePopup_def timerInv_handleClose split: option.splits)
  next
    case ContentClosePopup
    with e inv show ?thesis
      by (simp add: closePopup_def timerInv_handleClose split: option.splits)
  next
    case (DocMouseDown tgt)
    with e inv show ?thesis
      by (simp add: handleClickOutside_def timerInv_handleClose split: option.splits)
  next
    case (DocKeyDown k sh)
    have c: "timerInv (handleClose props apc s)" for apc
      using inv by (rule timerInv_handleClose)
    have "timerInv ((handleClose props apc s)\<lparr>activeElement := FTrigger\<rparr>)" for apc
      using c [of apc] by (simp add: timerInv_def split: list.splits option.splits)
    moreover have "\<And>x. timerInv (s\<lparr>activeElement := x\<rparr>)"
      using inv by (simp add: timerInv_def split: list.splits option.splits)
    ultimately show ?thesis
      using e inv DocKeyDown c
      by (simp add: handleKeyDown_def Let_def split: option.splits Key.splits)
  next
    case (TimerFires i)
    with e inv show ?thesis by (simp add: timerInv_fireTimer)
  next
    case EffectCleanup
    with e inv show ?thesis by (simp add: timerInv_clearTimeoutRef)
  next
    case FocusEffect
    with e inv show ?thesis
      by (simp add: focusEffect_def split: option.splits)
         (simp add: timerInv_def split: list.splits option.splits)
  next
    case ExitComplete
    with e inv show ?thesis
      by (simp add: exitComplete_def split: option.splits)
         (simp add: timerInv_def split: list.splits option.splits)
  qed
qed

lemma timerInv_run: "timerInv s \<Longrightarrow> timerInv (run props es s)"
  by (induction es arbitrary: s) (auto simp: timerInv_step)

lemma timerInv_reachable: "timerInv (run props es initialState)"
  by (rule timerInv_run [OF timerInv_initialState])

section \<open>Timers only move forward\<close>

lemma later_refl: "later s s"
  by (simp add: later_def)

lemma later_trans:
  assumes "later s s'" and "later s' s''"
  shows "later s s''"
proof -
  from assms(1) obtain xs where
    n1: "nextTimerId s \<le> nextTimerId s'" and
    f1: "fired s' = fired s @ xs" and
    x1: "\<forall>t \<in> set xs. t \<in> set (pending s) \<or> nextTimerId s \<le> t_id t" and
    p1: "\<forall>t \<in> set (pending s'). t \<in> set (pending s) \<or> nextTimerId s \<le> t_id t"
    by (auto simp: later_def)
  from assms(2) obtain ys where
    n2: "nextTimerId s' \<le> nextTimerId s''" and
    f2: "fired s'' = fired s' @ ys" and
    x2: "\<forall>t \<in> set ys. t \<in> set (pending s') \<or> nextTimerId s' \<le> t_id t" and
    p2: "\<forall>t \<in> set (pending s''). t \<in> set (pending s') \<or> nextTimerId s' \<le> t_id t"
    by (auto simp: later_def)
  have a: "nextTimerId s \<le> nextTimerId s''" using n1 n2 by simp
  have b: "fired s'' = fired s @ (xs @ ys)" using f1 f2 by simp
  have c: "\<forall>t \<in> set (xs @ ys). t \<in> set (pending s) \<or> nextTimerId s \<le> t_id t"
    using x1 x2 p1 n1 by (auto intro: order_trans)
  have d: "\<forall>t \<in> set (pending s''). t \<in> set (pending s) \<or> nextTimerId s \<le> t_id t"
    using p2 p1 n1 by (auto intro: order_trans)
  show ?thesis unfolding later_def using a b c d by blast
qed

lemma later_same:
  assumes "nextTimerId s' = nextTimerId s" and "fired s' = fired s"
    and "set (pending s') \<subseteq> set (pending s)"
  shows "later s s'"
  using assms by (auto simp: later_def)

lemma later_invoke: "later s (invoke cb s)"
  by (rule later_same) simp_all

lemma later_clearTimeoutRef: "later s (clearTimeoutRef s)"
  by (rule later_same)
     (auto simp: clearTimeoutRef_def windowClearTimeout_def split: option.splits)

lemma later_handleOpen: "later s (handleOpen props env pl ty s)"
  by (auto simp: later_def handleOpen_def Let_def windowSetTimeout_def clearTimeoutRef_def
      windowClearTimeout_def split: option.splits)

lemma later_handleClose: "later s (handleClose props apc s)"
  by (auto simp: later_def handleClose_def Let_def windowSetTimeout_def clearTimeoutRef_def
      windowClearTimeout_def split: option.splits)

lemma find_in_set: "find P xs = Some x \<Longrightarrow> x \<in> set xs"
  by (induction xs) (auto split: if_splits)

lemma later_fireTimer: "later s (fireTimer i s)"
  by (auto simp: later_def fireTimer_def dest: find_in_set split: option.splits)

lemma later_openClickEntries_aux: "later s (foldl (openEntry props env) s es)"
proof (induction es arbitrary: s)
  case Nil
  show ?case by (simp add: later_refl)
next
  case (Cons e es)
  obtain pl types where e: "e = (pl, types)" by (cases e)
  show ?case
  proof (cases "click types")
    case None
    with e Cons.IH [of s] show ?thesis by simp
  next
    case (Some c)
    with e Cons.IH [of "handleOpen props env pl CLICK s"]
      later_handleOpen [of s props env pl CLICK]
    show ?thesis by (auto intro: later_trans)
  qed
qed

lemma later_openClickEntries: "later s (openClickEntries props env s)"
  unfolding openClickEntries_def by (rule later_openClickEntries_aux)

lemma later_focus: "later s (s\<lparr>activeElement := x\<rparr>)"
  by (rule later_same) simp_all

lemma later_step: "later s (step props e s)"
proof -
  obtain env ev where e: "e = (env, ev)" by (cases e)
  show ?thesis
  proof (cases ev)
    case TriggerClick
    with e show ?thesis
      by (auto simp: onClick_def intro: later_trans later_invoke later_openClickEntries)
  next
    case (TriggerKeyDown k)
    with e show ?thesis
      by (auto simp: onKeyDown_def
          intro: later_trans later_invoke later_openClickEntries later_refl)
  next
    case TriggerMouseEnter
    with e show ?thesis
      by (auto simp: onMouseEnterTrigger_def Let_def split: option.splits
          intro: later_trans later_invoke later_handleOpen)
  next
    case TriggerMouseLeave
    with e show ?thesis
      by (auto simp: onMouseLeaveTrigger_def Let_def split: option.splits
          intro: later_trans later_invoke later_handleClose)
  next
    case PopupMouseEnter
    with e show ?thesis
      by (auto simp: onMouseEnterPopup_def split: option.splits
          intro: later_trans later_invoke later_clearTimeoutRef later_refl)
  next
    case PopupMouseLeave
    with e show ?thesis
      by (auto simp: onMouseLeavePopup_def split: option.splits
          intro: later_trans later_invoke later_handleClose later_refl)
  next
    case ContentClosePopup
    with e show ?thesis
      by (auto simp: closePopup_def split: option.splits intro: later_handleClose later_refl)
  next
    case (DocMouseDown tgt)
    with e show ?thesis
      by (auto simp: handleClickOutside_def split: option.splits
          intro: later_handleClose later_refl)
  next
    case (DocKeyDown k sh)
    have "later s ((handleClose props apc s)\<lparr>activeElement := FTrigger\<rparr>)" for apc
      by (rule later_trans [OF later_handleClose later_focus])
    with e DocKeyDown show ?thesis
      by (auto simp: handleKeyDown_def Let_def split: option.splits Key.splits
          intro: later_handleClose later_refl later_focus)
  next
    case (TimerFires i)
    with e show ?thesis by (simp add: later_fireTimer)
  next
    case EffectCleanup
    with e show ?thesis by (simp add: later_clearTimeoutRef)
  next
    case FocusEffect
    with e show ?thesis
      by (auto simp: focusEffect_def split: option.splits intro: later_refl later_focus)
  next
    case ExitComplete
    with e show ?thesis
      by (auto simp: exitComplete_def split: option.splits intro: later_refl later_same)
  qed
qed

lemma later_run: "later s (run props es s)"
proof (induction es arbitrary: s)
  case Nil
  show ?case by (simp add: later_refl)
next
  case (Cons e es)
  from later_step [of s props e] Cons.IH [of "step props e s"]
  show ?case by (auto intro: later_trans)
qed

lemma handleClose_fields [simp]:
  "isOpen (handleClose props apc s) = isOpen s"
  "activePopup (handleClose props apc s) = activePopup s"
  "cp_activePopup (handleClose props apc s) = cp_activePopup s"
  "overlayRender (handleClose props apc s) = overlayRender s"
  "activeElement (handleClose props apc s) = activeElement s"
  "fired (handleClose props apc s) = fired s"
  "invoked (handleClose props apc s) = invoked s"
  by (simp_all add: handleClose_def Let_def windowSetTimeout_def split: option.splits)

lemma handleOpen_fields [simp]:
  "isOpen (handleOpen props env pl ty s) = isOpen s"
  "activePopup (handleOpen props env pl ty s) = activePopup s"
  "cp_activePopup (handleOpen props env pl ty s) = cp_activePopup s"
  "overlayRender (handleOpen props env pl ty s) = overlayRender s"
  "activeElement (handleOpen props env pl ty s) = activeElement s"
  "fired (handleOpen props env pl ty s) = fired s"
  "invoked (handleOpen props env pl ty s) = invoked s"
  by (simp_all add: handleOpen_def Let_def windowSetTimeout_def split: option.splits)

lemma timerInv_pending_below:
  assumes "timerInv s" and "t \<in> set (pending s)"
  shows "t_id t < nextTimerId s"
  using assms by (auto simp: timerInv_def split: list.splits option.splits)

lemmas component_defs =
  initialState_def invoke_def windowClearTimeout_def clearTimeoutRef_def windowSetTimeout_def
  orZero_def handleOpen_def handleClose_def fireTimer_def openClickEntries_def onClick_def
  onKeyDown_def onMouseEnterTrigger_def onMouseLeaveTrigger_def rendered_def
  onMouseEnterPopup_def onMouseLeavePopup_def closePopup_def handleClickOutside_def
  handleKeyDown_def focusEffect_def exitComplete_def renderOverlay_def lookupSpec_def popupRect_def
  positions_def flipPlacement_def tooltipConfig_def flipDisabled_def calculatePosition_def

lemmas fixture_defs =
  entry_def onlyHover_def onlyClick_def defaultProps_def triggerAt_def page_def
  delayedHover_def offsetHover_def oneClick_def noFlipClick_def enterableHover_def
  twoClicks_def

section \<open>Superseded timers\<close>

text \<open>
  C5, as amended. In every state that a sequence of events reaches, at most one timer is
  pending. An open whose entry exists, and a close whose closure holds an active overlay
  with an entry (the current one, or for the handlers of an overlay element that is
  still in the page the one of its last render), arm a timer after clearing the pending
  one: afterwards the only pending timer is the new one, with the callback and the
  delay of this intent (0 for click), and it is the only timer that can run next; at
  most one timer is pending whatever happens later, and every timer that runs from then
  on was armed by this intent or a later one, so none of the timers pending before it
  ever runs. The pointer leaving the trigger while no overlay is active requests no
  close: apart from the host's callback the state stays as it is, pending timer
  included.
\<close>

theorem superseded_timer_never_fires:
  assumes reach: "s = run props evs initialState"
    and arm:
      "(s' = handleOpen props env pl ty s
        \<and> lookupSpec (config props) pl ty = Some c
        \<and> cb = OpenCb
             (case res_placement (calculatePosition props (cp_activePopup s) env pl) of
                None \<Rightarrow> pl | Some p \<Rightarrow> p)
             ty (res_position (calculatePosition props (cp_activePopup s) env pl)) c
        \<and> d = (if ty = HOVER then orZero (openDelay c) else 0))
       \<or> (s' = handleClose props (Some ap) s
           \<and> lookupSpec (config props) (ap_placement ap) (ap_type ap) = Some c
           \<and> cb = CloseCb c
           \<and> d = (if ap_type ap = HOVER then orZero (closeDelay c) else 0))"
  shows "length (pending s) \<le> 1
     \<and> pending s' = [\<lparr>t_id = nextTimerId s, t_delay = d, t_cb = cb\<rparr>]
     \<and> (\<forall>i. fired (fireTimer i s') = fired s
            \<or> fired (fireTimer i s')
              = fired s @ [\<lparr>t_id = nextTimerId s, t_delay = d, t_cb = cb\<rparr>])
     \<and> length (pending (run props evs' s')) \<le> 1
     \<and> (\<exists>xs. fired (run props evs' s') = fired s @ xs
          \<and> (\<forall>t \<in> set xs. nextTimerId s \<le> t_id t \<and> t \<notin> set (pending s)))
     \<and> (activePopup s = None
          \<longrightarrow> onMouseLeaveTrigger props s = invoke (tc_onMouseLeave props) s
            \<and> pending (onMouseLeaveTrigger props s) = pending s)"
proof -
  let ?new = "\<lparr>t_id = nextTimerId s, t_delay = d, t_cb = cb\<rparr>"
  have inv: "timerInv s" unfolding reach by (rule timerInv_reachable)
  have one: "length (pending s) \<le> 1" using inv by (rule timerInv_length)
  have new: "pending s' = [?new]"
    using arm inv by (auto simp: handleOpen_arms handleClose_arms)
  have f: "fired s' = fired s" using arm by auto
  have inv': "timerInv s'"
    using arm inv by (auto simp: timerInv_handleOpen timerInv_handleClose)
  have nxt: "\<forall>i. fired (fireTimer i s') = fired s
            \<or> fired (fireTimer i s') = fired s @ [?new]"
    by (simp add: fireTimer_def new f)
  have next': "nextTimerId s \<le> nextTimerId s'"
    using arm later_handleOpen [of s props env pl ty] later_handleClose [of s props "Some ap"]
    by (auto simp: later_def)
  have one': "length (pending (run props evs' s')) \<le> 1"
    using inv' by (intro timerInv_length timerInv_run)
  from later_run [of s' props evs'] obtain xs where
    fx: "fired (run props evs' s') = fired s' @ xs" and
    xs: "\<forall>t \<in> set xs. t \<in> set (pending s') \<or> nextTimerId s' \<le> t_id t"
    by (auto simp: later_def)
  have "\<forall>t \<in> set xs. nextTimerId s \<le> t_id t \<and> t \<notin> set (pending s)"
  proof
    fix t assume t: "t \<in> set xs"
    have ge: "nextTimerId s \<le> t_id t"
    proof (cases "t \<in> set (pending s')")
      case True
      with new show ?thesis by simp
    next
      case False
      with xs t next' show ?thesis by auto
    qed
    moreover have "t \<notin> set (pending s)"
      using timerInv_pending_below [OF inv, of t] ge by auto
    ultimately show "nextTimerId s \<le> t_id t \<and> t \<notin> set (pending s)" by simp
  qed
  with fx f have fired: "\<exists>xs. fired (run props evs' s') = fired s @ xs
          \<and> (\<forall>t \<in> set xs. nextTimerId s \<le> t_id t \<and> t \<notin> set (pending s))"
    by auto
  have noop: "activePopup s = None
          \<longrightarrow> onMouseLeaveTrigger props s = invoke (tc_onMouseLeave props) s
            \<and> pending (onMouseLeaveTrigger props s) = pending s"
    by (simp add: onMouseLeaveTrigger_def Let_def)
  from one new nxt one' fired noop show ?thesis by (intro conjI)
qed

theorem superseded_timer_never_fires_witness:
  "pending (run delayedHover
      [(page (triggerAt 300 400), TriggerMouseEnter),
       (page (triggerAt 300 400), TimerFires 1),
       (page (triggerAt 300 400), TriggerMouseLeave)] initialState)
     = [\<lparr>t_id = 2, t_delay = 0,
         t_cb = CloseCb ((entry ''Delayed tooltip'')\<lparr>openDelay := Some 100, closeDelay := Some 0\<rparr>)\<rparr>]
   \<and> lookupSpec (config delayedHover) TOP HOVER
     = Some ((entry ''Delayed tooltip'')\<lparr>openDelay := Some 100, closeDelay := Some 0\<rparr>)
   \<and> pending (handleOpen delayedHover (page (triggerAt 300 400)) TOP HOVER
        (run delayedHover
          [(page (triggerAt 300 400), TriggerMouseEnter),
           (page (triggerAt 300 400), TimerFires 1),
           (page (triggerAt 300 400), TriggerMouseLeave)] initialState))
     = [\<lparr>t_id = 3, t_delay = 100,
         t_cb = OpenCb TOP HOVER (Some \<lparr>pos_top = 252, pos_left = 350\<rparr>)
           ((entry ''Delayed tooltip'')\<lparr>openDelay := Some 100, closeDelay := Some 0\<rparr>)\<rparr>]
   \<and> map t_id (fired (run delayedHover
        [(page (triggerAt 300 400), TimerFires 2), (page (triggerAt 300 400), TimerFires 3)]
        (handleOpen delayedHover (page (triggerAt 300 400)) TOP HOVER
          (run delayedHover
            [(page (triggerAt 300 400), TriggerMouseEnter),
             (page (triggerAt 300 400), TimerFires 1),
             (page (triggerAt 300 400), TriggerMouseLeave)] initialState)))) = [1, 3]
   \<and> activePopup (run delayedHover [(page (triggerAt 300 400), TriggerMouseEnter)] initialState)
       = None
   \<and> onMouseLeaveTrigger delayedHover
        (run delayedHover [(page (triggerAt 300 400), TriggerMouseEnter)] initialState)
       = run delayedHover [(page (triggerAt 300 400), TriggerMouseEnter)] initialState
   \<and> activePopup (run enterableHover
        [(page (triggerAt 300 400), TriggerMouseEnter),
         (page (triggerAt 300 400), TimerFires 1),
         (page (triggerAt 300 400), PopupMouseLeave),
         (page (triggerAt 300 400), TimerFires 2),
         (page (triggerAt 300 400), TriggerMouseEnter)] initialState) = None
   \<and> overlayRender (run enterableHover
        [(page (triggerAt 300 400), TriggerMouseEnter),
         (page (triggerAt 300 400), TimerFires 1),
         (page (triggerAt 300 400), PopupMouseLeave),
         (page (triggerAt 300 400), TimerFires 2),
         (page (triggerAt 300 400), TriggerMouseEnter)] initialState)
     = Some \<lparr>ap_placement = RIGHT, ap_type = HOVER,
             ap_position = Some \<lparr>pos_top = 295, pos_left = 508\<rparr>\<rparr>
   \<and> map t_id (pending (run enterableHover
        [(page (triggerAt 300 400), TriggerMouseEnter),
         (page (triggerAt 300 400), TimerFires 1),
         (page (triggerAt 300 400), PopupMouseLeave),
         (page (triggerAt 300 400), TimerFires 2),
         (page (triggerAt 300 400), TriggerMouseEnter)] initialState)) = [3]
   \<and> onMouseLeavePopup enterableHover
        (run enterableHover
          [(page (triggerAt 300 400), TriggerMouseEnter),
           (page (triggerAt 300 400), TimerFires 1),
           (page (triggerAt 300 400), PopupMouseLeave),
           (page (triggerAt 300 400), TimerFires 2),
           (page (triggerAt 300 400), TriggerMouseEnter)] initialState)
     = handleClose enterableHover
        (Some \<lparr>ap_placement = RIGHT, ap_type = HOVER,
               ap_position = Some \<lparr>pos_top = 295, pos_left = 508\<rparr>\<rparr>)
        (run enterableHover
          [(page (triggerAt 300 400), TriggerMouseEnter),
           (page (triggerAt 300 400), TimerFires 1),
           (page (triggerAt 300 400), PopupMouseLeave),
           (page (triggerAt 300 400), TimerFires 2),
           (page (triggerAt 300 400), TriggerMouseEnter)] initialState)
   \<and> pending (handleClose enterableHover
        (Some \<lparr>ap_placement = RIGHT, ap_type = HOVER,
               ap_position = Some \<lparr>pos_top = 295, pos_left = 508\<rparr>\<rparr>)
        (run enterableHover
          [(page (triggerAt 300 400), TriggerMouseEnter),
           (page (triggerAt 300 400), TimerFires 1),
           (page (triggerAt 300 400), PopupMouseLeave),
           (page (triggerAt 300 400), TimerFires 2),
           (page (triggerAt 300 400), TriggerMouseEnter)] initialState))
     = [\<lparr>t_id = 4, t_delay = 0,
         t_cb = CloseCb ((entry ''Hover over me!'')\<lparr>enterable := True\<rparr>)\<rparr>]
   \<and> map t_id (fired (run enterableHover
        [(page (triggerAt 300 400), TimerFires 3), (page (triggerAt 300 400), TimerFires 4)]
        (handleClose enterableHover
          (Some \<lparr>ap_placement = RIGHT, ap_type = HOVER,
                 ap_position = Some \<lparr>pos_top = 295, pos_left = 508\<rparr>\<rparr>)
          (run enterableHover
            [(page (triggerAt 300 400), TriggerMouseEnter),
             (page (triggerAt 300 400), TimerFires 1),
             (page (triggerAt 300 400), PopupMouseLeave),
             (page (triggerAt 300 400), TimerFires 2),
             (page (triggerAt 300 400), TriggerMouseEnter)] initialState)))) = [1, 2, 4]"
  using superseded_timer_never_fires
    [where s = "run delayedHover
          [(page (triggerAt 300 400), TriggerMouseEnter),
           (page (triggerAt 300 400), TimerFires 1),
           (page (triggerAt 300 400), TriggerMouseLeave)] initialState"
      and props = delayedHover
      and evs = "[(page (triggerAt 300 400), TriggerMouseEnter),
          (page (triggerAt 300 400), TimerFires 1),
          (page (triggerAt 300 400), TriggerMouseLeave)]"
      and s' = "handleOpen delayedHover (page (triggerAt 300 400)) TOP HOVER
          (run delayedHover
            [(page (triggerAt 300 400), TriggerMouseEnter),
             (page (triggerAt 300 400), TimerFires 1),
             (page (triggerAt 300 400), TriggerMouseLeave)] initialState)"
      and env = "page (triggerAt 300 400)" and pl = TOP and ty = HOVER
      and c = "(entry ''Delayed tooltip'')\<lparr>openDelay := Some 100, closeDelay := Some 0\<rparr>"
      and cb = "OpenCb TOP HOVER (Some \<lparr>pos_top = 252, pos_left = 350\<rparr>)
           ((entry ''Delayed tooltip'')\<lparr>openDelay := Some 100, closeDelay := Some 0\<rparr>)"
      and d = 100
      and evs' = "[(page (triggerAt 300 400), TimerFires 2),
          (page (triggerAt 300 400), TimerFires 3)]"]
    superseded_timer_never_fires
    [where s = "run delayedHover [(page (triggerAt 300 400), TriggerMouseEnter)] initialState"
      and props = delayedHover
      and evs = "[(page (triggerAt 300 400), TriggerMouseEnter)]"
      and s' = "handleOpen delayedHover (page (triggerAt 300 400)) TOP HOVER
          (run delayedHover [(page (triggerAt 300 400), TriggerMouseEnter)] initialState)"
      and env = "page (triggerAt 300 400)" and pl = TOP and ty = HOVER
      and c = "(entry ''Delayed tooltip'')\<lparr>openDelay := Some 100, closeDelay := Some 0\<rparr>"
      and cb = "OpenCb TOP HOVER (Some \<lparr>pos_top = 252, pos_left = 350\<rparr>)
           ((entry ''Delayed tooltip'')\<lparr>openDelay := Some 100, closeDelay := Some 0\<rparr>)"
      and d = 100
      and evs' = "[]"]
    superseded_timer_never_fires
    [where s = "run enterableHover
          [(page (triggerAt 300 400), TriggerMouseEnter),
           (page (triggerAt 300 400), TimerFires 1),
           (page (triggerAt 300 400), PopupMouseLeave),
           (page (triggerAt 300 400), TimerFires 2),
           (page (triggerAt 300 400), TriggerMouseEnter)] initialState"
      and props = enterableHover
      and evs = "[(page (triggerAt 300 400), TriggerMouseEnter),
           (page (triggerAt 300 400), TimerFires 1),
           (page (triggerAt 300 400), PopupMouseLeave),
           (page (triggerAt 300 400), TimerFires 2),
           (page (triggerAt 300 400), TriggerMouseEnter)]"
      and s' = "handleClose enterableHover
          (Some \<lparr>ap_placement = RIGHT, ap_type = HOVER,
                 ap_position = Some \<lparr>pos_top = 295, pos_left = 508\<rparr>\<rparr>)
          (run enterableHover
            [(page (triggerAt 300 400), TriggerMouseEnter),
             (page (triggerAt 300 400), TimerFires 1),
             (page (triggerAt 300 400), PopupMouseLeave),
             (page (triggerAt 300 400), TimerFires 2),
             (page (triggerAt 300 400), TriggerMouseEnter)] initialState)"
      and ap = "\<lparr>ap_placement = RIGHT, ap_type = HOVER,
                 ap_position = Some \<lparr>pos_top = 295, pos_left = 508\<rparr>\<rparr>"
      and c = "(entry ''Hover over me!'')\<lparr>enterable := True\<rparr>"
      and cb = "CloseCb ((entry ''Hover over me!'')\<lparr>enterable := True\<rparr>)"
      and d = 0
      and evs' = "[(page (triggerAt 300 400), TimerFires 3),
          (page (triggerAt 300 400), TimerFires 4)]"]
  by (simp add: component_defs fixture_defs Let_def)

text \<open>
  C5 as the specification states it fails on the code. The pointer enters the trigger
  (an open with a delay of 100 ms is armed) and leaves it before the delay is over: no
  overlay is active yet, so the handler of the trigger requests no close, the open
  timer stays armed, and its callback runs. The \<^verbatim>\<open>handleClose\<close> of that render, called
  directly, returns at once as well.
\<close>

theorem stale_open_fires_counterexample:
  "isOpen (run delayedHover
        [(page (triggerAt 300 400), TriggerMouseEnter),
         (page (triggerAt 300 400), TriggerMouseLeave),
         (page (triggerAt 300 400), TimerFires 1)] initialState)
   \<and> map t_cb (fired (run delayedHover
        [(page (triggerAt 300 400), TriggerMouseEnter),
         (page (triggerAt 300 400), TriggerMouseLeave),
         (page (triggerAt 300 400), TimerFires 1)] initialState))
     = [OpenCb TOP HOVER (Some \<lparr>pos_top = 252, pos_left = 350\<rparr>)
          ((entry ''Delayed tooltip'')\<lparr>openDelay := Some 100, closeDelay := Some 0\<rparr>)]
   \<and> handleClose delayedHover
        (activePopup
          (handleOpen delayedHover (page (triggerAt 300 400)) TOP HOVER initialState))
        (handleOpen delayedHover (page (triggerAt 300 400)) TOP HOVER initialState)
     = handleOpen delayedHover (page (triggerAt 300 400)) TOP HOVER initialState
   \<and> map t_id (fired (fireTimer 1
        (handleClose delayedHover
          (activePopup
            (handleOpen delayedHover (page (triggerAt 300 400)) TOP HOVER initialState))
          (handleOpen delayedHover (page (triggerAt 300 400)) TOP HOVER initialState))))
     = [1]"
  by (simp add: component_defs fixture_defs Let_def)

section \<open>Click on the trigger\<close>

lemma openClickEntries_skip:
  assumes "\<forall>e \<in> set es. click (snd e) = None"
  shows "foldl (openEntry props env) s es = s"
  using assms by (induction es arbitrary: s) auto

lemma openClickEntries_filter:
  "foldl (openEntry props env) s es
   = foldl (\<lambda>st pl. handleOpen props env pl CLICK st) s
       (map fst (filter (\<lambda>(pl, types). click types \<noteq> None) es))"
  by (induction es arbitrary: s) auto

lemma cp_activePopup_openClickEntries_aux:
  "cp_activePopup (foldl (openEntry props env) s es) = cp_activePopup s"
  by (induction es arbitrary: s) auto

lemma fired_openClickEntries_aux:
  "fired (foldl (openEntry props env) s es) = fired s"
  by (induction es arbitrary: s) auto

lemma lookupSpec_last_click:
  assumes "cfg = before @ (pl, types) # after" and "distinct (map fst cfg)"
    and "click types = Some c"
  shows "lookupSpec cfg pl CLICK = Some c"
proof -
  have "(pl, types) \<in> set cfg" by (simp add: assms(1))
  with assms(2) have "map_of cfg pl = Some types" by (rule map_of_is_SomeI)
  with assms(3) show ?thesis by (simp add: lookupSpec_def)
qed

text \<open>
  C6, as amended. A click on the trigger, and Enter or Space on it, call
  \<^verbatim>\<open>handleOpen(placement, CLICK)\<close> for every entry of the configuration that has a click
  entry, in the order of \<^verbatim>\<open>Object.entries\<close>. Afterwards exactly one timer is pending, the
  one armed for the last such entry; when it runs, the overlay is open in click mode,
  with the placement and position that \<^verbatim>\<open>calculatePosition\<close> returned for that entry's
  placement (the entry's own placement unless it was flipped), and no other timer has
  run.
\<close>

theorem click_last_entry_wins:
  assumes reach: "s = run props evs initialState"
    and cfg: "config props = before @ (pl, types) # after"
    and c: "click types = Some c"
    and rest: "\<forall>e \<in> set after. click (snd e) = None"
    and dist: "distinct (map fst (config props))"
    and pre: "pre = calculatePosition props (cp_activePopup s) env pl"
    and fp: "finalPlacement = (case res_placement pre of None \<Rightarrow> pl | Some p \<Rightarrow> p)"
  shows "onClick props env s
       = foldl (\<lambda>st p. handleOpen props env p CLICK st) (invoke (tc_onClick props) s)
           (map fst (filter (\<lambda>(p, t). click t \<noteq> None) (config props)))
     \<and> onKeyDown props env Enter s = onClick props env s
     \<and> onKeyDown props env Space s = onClick props env s
     \<and> (\<exists>i. pending (onClick props env s)
            = [\<lparr>t_id = i, t_delay = 0, t_cb = OpenCb finalPlacement CLICK (res_position pre) c\<rparr>]
          \<and> isOpen (fireTimer i (onClick props env s))
          \<and> activePopup (fireTimer i (onClick props env s))
            = Some \<lparr>ap_placement = finalPlacement, ap_type = CLICK,
                    ap_position = res_position pre\<rparr>
          \<and> fired (fireTimer i (onClick props env s))
            = fired s
              @ [\<lparr>t_id = i, t_delay = 0,
                   t_cb = OpenCb finalPlacement CLICK (res_position pre) c\<rparr>])"
proof -
  let ?f = "openEntry props env"
  let ?s0 = "invoke (tc_onClick props) s"
  let ?s1 = "foldl ?f ?s0 before"
  have inv: "timerInv s" unfolding reach by (rule timerInv_reachable)
  then have "timerInv ?s0" by simp
  then have inv1: "timerInv ?s1" by (rule timerInv_openClickEntries_aux)
  have "cp_activePopup ?s1 = cp_activePopup ?s0"
    by (rule cp_activePopup_openClickEntries_aux)
  then have cp1: "cp_activePopup ?s1 = cp_activePopup s" by simp
  have "fired ?s1 = fired ?s0" by (rule fired_openClickEntries_aux)
  then have f1: "fired ?s1 = fired s" by simp
  have spec: "lookupSpec (config props) pl CLICK = Some c"
    using lookupSpec_last_click [OF cfg _ c] dist by simp
  have "onClick props env s = foldl ?f (foldl ?f ?s0 (before @ [(pl, types)])) after"
    by (simp add: onClick_def openClickEntries_def cfg)
  also have "\<dots> = foldl ?f ?s0 (before @ [(pl, types)])"
    using rest by (rule openClickEntries_skip)
  also have "\<dots> = handleOpen props env pl CLICK ?s1" using c by simp
  finally have oc: "onClick props env s = handleOpen props env pl CLICK ?s1" .
  let ?t = "\<lparr>t_id = nextTimerId ?s1, t_delay = 0,
             t_cb = OpenCb finalPlacement CLICK (res_position pre) c\<rparr>"
  have arms: "onClick props env s
      = ?s1\<lparr>pending := [?t], nextTimerId := Suc (nextTimerId ?s1),
            timeoutRef := Some (nextTimerId ?s1)\<rparr>"
    unfolding oc by (simp add: handleOpen_arms [OF inv1 spec] cp1 pre fp)
  have a: "onClick props env s
       = foldl (\<lambda>st p. handleOpen props env p CLICK st) ?s0
           (map fst (filter (\<lambda>(p, t). click t \<noteq> None) (config props)))"
    by (simp add: onClick_def openClickEntries_def openClickEntries_filter)
  have b: "onKeyDown props env Enter s = onClick props env s"
    "onKeyDown props env Space s = onClick props env s"
    by (simp_all add: onKeyDown_def onClick_def)
  have p: "pending (onClick props env s) = [?t]" by (simp add: arms)
  have d: "isOpen (fireTimer (nextTimerId ?s1) (onClick props env s))"
    "activePopup (fireTimer (nextTimerId ?s1) (onClick props env s))
            = Some \<lparr>ap_placement = finalPlacement, ap_type = CLICK,
                    ap_position = res_position pre\<rparr>"
    "fired (fireTimer (nextTimerId ?s1) (onClick props env s)) = fired s @ [?t]"
    by (simp_all add: arms fireTimer_def f1)
  from a b p d show ?thesis by blast
qed

theorem click_last_entry_wins_witness:
  "config twoClicks = [(TOP, onlyClick (entry ''A''))] @ (BOTTOM, onlyClick (entry ''B'')) # []
   \<and> click (onlyClick (entry ''B'')) = Some (entry ''B'')
   \<and> distinct (map fst (config twoClicks))
   \<and> calculatePosition twoClicks (cp_activePopup initialState) (page (triggerAt 300 400)) BOTTOM
       = \<lparr>res_position = Some \<lparr>pos_top = 338, pos_left = 350\<rparr>, res_placement = Some BOTTOM\<rparr>
   \<and> pending (onClick twoClicks (page (triggerAt 300 400)) initialState)
       = [\<lparr>t_id = 2, t_delay = 0,
           t_cb = OpenCb BOTTOM CLICK (Some \<lparr>pos_top = 338, pos_left = 350\<rparr>) (entry ''B'')\<rparr>]
   \<and> activePopup (fireTimer 2 (onClick twoClicks (page (triggerAt 300 400)) initialState))
       = Some \<lparr>ap_placement = BOTTOM, ap_type = CLICK,
               ap_position = Some \<lparr>pos_top = 338, pos_left = 350\<rparr>\<rparr>"
  using click_last_entry_wins
    [of initialState twoClicks "[]" "[(TOP, onlyClick (entry ''A''))]" BOTTOM
        "onlyClick (entry ''B'')" "[]" "entry ''B''"
        "\<lparr>res_position = Some \<lparr>pos_top = 338, pos_left = 350\<rparr>, res_placement = Some BOTTOM\<rparr>"
        "page (triggerAt 300 400)" BOTTOM]
  by (simp add: component_defs fixture_defs Let_def)

text \<open>
  C6 as the specification states it fails on the code. With click entries for top and
  bottom, in this order, and the trigger 8 pixels above the lower edge of the window,
  the open of the bottom entry is flipped to the top: the active placement and type
  are those of the first entry, and the overlay shows the first entry's content.
\<close>

theorem click_flipped_onto_first_entry_counterexample:
  "activePopup (fireTimer 2 (onClick twoClicks (page (triggerAt 730 400)) initialState))
     = Some \<lparr>ap_placement = TOP, ap_type = CLICK,
             ap_position = Some \<lparr>pos_top = 682, pos_left = 350\<rparr>\<rparr>
   \<and> map_option ov_content
        (renderOverlay twoClicks (page (triggerAt 730 400))
          (fireTimer 2 (onClick twoClicks (page (triggerAt 730 400)) initialState)))
     = Some (Some ''A'')
   \<and> map fst (filter (\<lambda>(p, t). click t \<noteq> None) (config twoClicks)) = [TOP, BOTTOM]"
  by (simp add: component_defs fixture_defs Let_def)

section \<open>Escape\<close>



text \<open>
  Without an entry for the active placement and type, which is the case after a flip
  onto a side that the configuration does not define, \<^verbatim>\<open>handleClose\<close> returns at its
  second guard: Escape moves the focus and nothing else.
\<close>

lemma escape_without_entry:
  assumes "isOpen s" and "triggerRef env = Some r" and "activePopup s = Some ap"
    and "lookupSpec (config props) (ap_placement ap) (ap_type ap) = None"
  shows "handleKeyDown props env Escape shiftKey s = s\<lparr>activeElement := FTrigger\<rparr>"
  using assms by (simp add: handleKeyDown_def handleClose_def Let_def)


section \<open>Attributes of the overlay\<close>

text \<open>
  C9. Whenever the overlay is rendered, an overlay is open and active, and the element
  has the role tooltip, aria-live polite for hover and assertive for click, aria-modal
  true exactly for click, tabindex 0 for click and -1 for hover, and data-placement the
  name of the active placement. After an open has run, from any reachable state, that
  placement is the one \<^verbatim>\<open>calculatePosition\<close> resolved for the requested placement,
  flipped or not.
\<close>

theorem overlay_attributes:
  assumes "renderOverlay props env s = Some ov"
  shows "(\<exists>ap. isOpen s \<and> activePopup s = Some ap
       \<and> ov_role ov = ''tooltip''
       \<and> ov_aria_live ov = (case ap_type ap of HOVER \<Rightarrow> ''polite'' | CLICK \<Rightarrow> ''assertive'')
       \<and> (ov_aria_modal ov \<longleftrightarrow> ap_type ap = CLICK)
       \<and> ov_tabIndex ov = (case ap_type ap of CLICK \<Rightarrow> 0 | HOVER \<Rightarrow> - 1)
       \<and> ov_data_placement ov = placementValue (ap_placement ap))
     \<and> (\<forall>evs e pl ty c.
          lookupSpec (config props) pl ty = Some c
          \<longrightarrow> map_option ov_data_placement
                (renderOverlay props e
                  (fireTimer (nextTimerId (run props evs initialState))
                    (handleOpen props e pl ty (run props evs initialState))))
              = Some (placementValue
                  (case res_placement
                     (calculatePosition props
                        (cp_activePopup (run props evs initialState)) e pl) of
                     None \<Rightarrow> pl | Some p \<Rightarrow> p)))"
proof -
  have a: "\<exists>ap. isOpen s \<and> activePopup s = Some ap
       \<and> ov_role ov = ''tooltip''
       \<and> ov_aria_live ov = (case ap_type ap of HOVER \<Rightarrow> ''polite'' | CLICK \<Rightarrow> ''assertive'')
       \<and> (ov_aria_modal ov \<longleftrightarrow> ap_type ap = CLICK)
       \<and> ov_tabIndex ov = (case ap_type ap of CLICK \<Rightarrow> 0 | HOVER \<Rightarrow> - 1)
       \<and> ov_data_placement ov = placementValue (ap_placement ap)"
    using assms
    by (cases "activePopup s"; cases "isOpen s")
       (auto simp: renderOverlay_def rendered_def split: PopupType.splits)
  have b: "map_option ov_data_placement
                (renderOverlay props e
                  (fireTimer (nextTimerId (run props evs initialState))
                    (handleOpen props e pl ty (run props evs initialState))))
              = Some (placementValue
                  (case res_placement
                     (calculatePosition props
                        (cp_activePopup (run props evs initialState)) e pl) of
                     None \<Rightarrow> pl | Some p \<Rightarrow> p))"
    if spec: "lookupSpec (config props) pl ty = Some c" for evs e pl ty c
  proof -
    let ?s = "run props evs initialState"
    have inv: "timerInv ?s" by (rule timerInv_reachable)
    show ?thesis
      by (simp add: handleOpen_arms [OF inv spec] fireTimer_def renderOverlay_def
          rendered_def)
  qed
  then have b': "\<forall>evs e pl ty c.
          lookupSpec (config props) pl ty = Some c
          \<longrightarrow> map_option ov_data_placement
                (renderOverlay props e
                  (fireTimer (nextTimerId (run props evs initialState))
                    (handleOpen props e pl ty (run props evs initialState))))
              = Some (placementValue
                  (case res_placement
                     (calculatePosition props
                        (cp_activePopup (run props evs initialState)) e pl) of
                     None \<Rightarrow> pl | Some p \<Rightarrow> p))"
    by (intro allI impI)
  from a b' show ?thesis by (intro conjI)
qed

theorem overlay_attributes_witness:
  "renderOverlay oneClick (page (triggerAt 10 400))
      (fireTimer 1 (handleOpen oneClick (page (triggerAt 10 400)) TOP CLICK initialState))
     = Some \<lparr>ov_role = ''tooltip'', ov_aria_live = ''assertive'', ov_aria_modal = True,
             ov_aria_hidden = False, ov_tabIndex = 0, ov_data_placement = ''bottom'',
             ov_style = Some \<lparr>pos_top = 48, pos_left = 350\<rparr>, ov_content = None\<rparr>
   \<and> lookupSpec (config oneClick) TOP CLICK = Some (entry ''Escape tooltip content'')
   \<and> activePopup
        (fireTimer 1 (handleOpen oneClick (page (triggerAt 10 400)) TOP CLICK initialState))
     = Some \<lparr>ap_placement = BOTTOM, ap_type = CLICK,
             ap_position = Some \<lparr>pos_top = 48, pos_left = 350\<rparr>\<rparr>
   \<and> res_placement (calculatePosition oneClick None (page (triggerAt 10 400)) TOP)
     = Some BOTTOM"
  using overlay_attributes
    [of oneClick "page (triggerAt 10 400)"
        "fireTimer 1 (handleOpen oneClick (page (triggerAt 10 400)) TOP CLICK initialState)"
        "\<lparr>ov_role = ''tooltip'', ov_aria_live = ''assertive'', ov_aria_modal = True,
          ov_aria_hidden = False, ov_tabIndex = 0, ov_data_placement = ''bottom'',
          ov_style = Some \<lparr>pos_top = 48, pos_left = 350\<rparr>, ov_content = None\<rparr>"]
  by (simp add: component_defs fixture_defs Let_def)

section \<open>The pointer leaves the trigger\<close>

text \<open>
  C10. While the active overlay is a click overlay, the pointer leaving the trigger only
  calls the host's \<^verbatim>\<open>triggerCallbacks.onMouseLeave\<close>: \<^verbatim>\<open>isOpen\<close>, \<^verbatim>\<open>activePopup\<close>, the
  pending timers and \<^verbatim>\<open>timeoutRef\<close> are as before. In any state, if the pointer leaving
  the trigger changes the pending timers, the active overlay is a hover overlay.
\<close>

theorem trigger_mouse_leave_click_mode:
  assumes "activePopup s = Some ap" and "ap_type ap = CLICK"
  shows "onMouseLeaveTrigger props s = invoke (tc_onMouseLeave props) s
     \<and> isOpen (onMouseLeaveTrigger props s) = isOpen s
     \<and> activePopup (onMouseLeaveTrigger props s) = activePopup s
     \<and> pending (onMouseLeaveTrigger props s) = pending s
     \<and> timeoutRef (onMouseLeaveTrigger props s) = timeoutRef s
     \<and> (\<forall>s0. pending (onMouseLeaveTrigger props s0) \<noteq> pending s0
          \<longrightarrow> (\<exists>a. activePopup s0 = Some a \<and> ap_type a = HOVER))"
proof -
  have eq: "onMouseLeaveTrigger props s = invoke (tc_onMouseLeave props) s"
    using assms by (simp add: onMouseLeaveTrigger_def Let_def)
  have only: "\<forall>s0. pending (onMouseLeaveTrigger props s0) \<noteq> pending s0
          \<longrightarrow> (\<exists>a. activePopup s0 = Some a \<and> ap_type a = HOVER)"
    by (auto simp: onMouseLeaveTrigger_def Let_def split: option.splits if_splits)
  from eq only show ?thesis by simp
qed

theorem trigger_mouse_leave_click_mode_witness:
  "activePopup (fireTimer 1 (onClick oneClick (page (triggerAt 300 400)) initialState))
     = Some \<lparr>ap_placement = TOP, ap_type = CLICK,
             ap_position = Some \<lparr>pos_top = 252, pos_left = 350\<rparr>\<rparr>
   \<and> onMouseLeaveTrigger oneClick
        (fireTimer 1 (onClick oneClick (page (triggerAt 300 400)) initialState))
     = fireTimer 1 (onClick oneClick (page (triggerAt 300 400)) initialState)
   \<and> pending (onMouseLeaveTrigger delayedHover
        (fireTimer 1 (onMouseEnterTrigger delayedHover (page (triggerAt 300 400)) initialState)))
     \<noteq> pending
        (fireTimer 1 (onMouseEnterTrigger delayedHover (page (triggerAt 300 400)) initialState))
   \<and> map_option ap_type (activePopup
        (fireTimer 1 (onMouseEnterTrigger delayedHover (page (triggerAt 300 400)) initialState)))
     = Some HOVER"
  using trigger_mouse_leave_click_mode
    [of "fireTimer 1 (onClick oneClick (page (triggerAt 300 400)) initialState)"
        "\<lparr>ap_placement = TOP, ap_type = CLICK,
          ap_position = Some \<lparr>pos_top = 252, pos_left = 350\<rparr>\<rparr>"
        oneClick]
    trigger_mouse_leave_click_mode
    [of "fireTimer 1 (onClick oneClick (page (triggerAt 300 400)) initialState)"
        "\<lparr>ap_placement = TOP, ap_type = CLICK,
          ap_position = Some \<lparr>pos_top = 252, pos_left = 350\<rparr>\<rparr>"
        delayedHover]
  by (simp add: component_defs fixture_defs Let_def)

section \<open>The offset of an entry\<close>

text \<open>
  C3. The types and the README document \<^verbatim>\<open>offset\<close> of an entry as the distance between
  trigger and tooltip, but \<^verbatim>\<open>calculatePosition\<close> takes \<^verbatim>\<open>defaultOffset\<close> and never reads
  the entry. With an entry whose offset is 20 and the default of 8, a trigger at top 300
  and an overlay of 200 by 40, the overlay is placed at top 252, that is 8 pixels above
  the trigger, where an offset of 20 gives 240.
\<close>

theorem per_entry_offset_ignored:
  "calculatePosition offsetHover None (page (triggerAt 300 400)) TOP
     = \<lparr>res_position = Some \<lparr>pos_top = 252, pos_left = 350\<rparr>, res_placement = Some TOP\<rparr>
   \<and> activePopup (run offsetHover
        [(page (triggerAt 300 400), TriggerMouseEnter), (page (triggerAt 300 400), TimerFires 1)]
        initialState)
     = Some \<lparr>ap_placement = TOP, ap_type = HOVER,
             ap_position = Some \<lparr>pos_top = 252, pos_left = 350\<rparr>\<rparr>
   \<and> map_option offset (lookupSpec (config offsetHover) TOP HOVER) = Some (Some 20)
   \<and> positions (triggerAt 300 400) 200 40 20 TOP = \<lparr>pos_top = 240, pos_left = 350\<rparr>"
  by (simp add: component_defs fixture_defs Let_def)

section \<open>Flipping disabled on a click entry\<close>

text \<open>
  C4. \<^verbatim>\<open>calculatePosition\<close> reads \<^verbatim>\<open>disableFlip\<close> from the entry of the type of the
  \<^verbatim>\<open>activePopup\<close> in its closure, or of the hover type when that is null, and not from the
  entry that is being opened. With a single click entry on top that disables flipping
  and a trigger 10 pixels below the upper edge, a click opens the overlay at the bottom,
  at top 48, where the base position of the requested placement is top -38.
\<close>

theorem click_entry_disableFlip_ignored:
  "map_option disableFlip (lookupSpec (config noFlipClick) TOP CLICK) = Some True
   \<and> calculatePosition noFlipClick None (page (triggerAt 10 400)) TOP
     = \<lparr>res_position = Some \<lparr>pos_top = 48, pos_left = 350\<rparr>, res_placement = Some BOTTOM\<rparr>
   \<and> activePopup (run noFlipClick
        [(page (triggerAt 10 400), TriggerClick), (page (triggerAt 10 400), TimerFires 1)]
        initialState)
     = Some \<lparr>ap_placement = BOTTOM, ap_type = CLICK,
             ap_position = Some \<lparr>pos_top = 48, pos_left = 350\<rparr>\<rparr>
   \<and> positions (triggerAt 10 400) 200 40 8 TOP = \<lparr>pos_top = - 38, pos_left = 350\<rparr>"
  by (simp add: component_defs fixture_defs Let_def)

end
